theory Spec2Isabelle
  imports Main "HOL-Library.Sublist"
begin

section \<open>Python strings and the built-ins used by \<open>validate_chapters\<close>\<close>

text \<open>
  A Python \<open>str\<close> is a sequence of Unicode code points, and \<open>len\<close>, \<open>split\<close> and
  \<open>strip\<close> work on code points. A code point is a natural number here, a string a
  list of them. The rejection messages start with the code point U+274C, which is
  outside the range of one \<open>char\<close>.
\<close>

type_synonym codepoint = nat
type_synonym pystr = "codepoint list"

text \<open>An ASCII literal of the source, as code points.\<close>

definition lit :: "string \<Rightarrow> pystr" where
  "lit s = map of_char s"

text \<open>
  The only exception the built-ins used here raise: \<open>split\<close> on an empty separator and
  the conversion of an integer of too many digits to a string.
\<close>

datatype error = ValueError

text \<open>
  The code points that \<open>str.isspace\<close>, \<open>str.strip()\<close> and \<open>str.split()\<close> treat as
  whitespace: U+0009..U+000D, U+001C..U+0020, U+0085, U+00A0, U+1680,
  U+2000..U+200A, U+2028, U+2029, U+202F, U+205F and U+3000.
\<close>

definition py_isspace :: "codepoint \<Rightarrow> bool" where
  "py_isspace c =
     ((9 \<le> c \<and> c \<le> 13) \<or> (28 \<le> c \<and> c \<le> 32) \<or> c = 133 \<or> c = 160 \<or> c = 5760 \<or>
      (8192 \<le> c \<and> c \<le> 8202) \<or> c = 8232 \<or> c = 8233 \<or> c = 8239 \<or> c = 8287 \<or>
      c = 12288)"

text \<open>\<open>s.strip()\<close>: whitespace removed at both ends.\<close>

definition py_strip :: "pystr \<Rightarrow> pystr" where
  "py_strip s = rev (dropWhile py_isspace (rev (dropWhile py_isspace s)))"

text \<open>
  \<open>s.split(sep)\<close> scans from the left; at each occurrence of \<open>sep\<close> it closes the
  current piece and continues behind the occurrence. \<open>cur\<close> is the piece read so far.
  The result has one piece more than there are (non-overlapping) occurrences.
\<close>

fun split_from :: "pystr \<Rightarrow> pystr \<Rightarrow> pystr \<Rightarrow> pystr list" where
  "split_from sep cur [] = [cur]"
| "split_from sep cur (x # xs) =
     (if prefix sep (x # xs)
      then cur # split_from sep [] (drop (length sep - 1) xs)
      else split_from sep (cur @ [x]) xs)"

text \<open>An empty separator raises \<open>ValueError\<close>.\<close>

definition py_split :: "pystr \<Rightarrow> pystr \<Rightarrow> error + pystr list" where
  "py_split s sep = (if sep = [] then Inl ValueError else Inr (split_from sep [] s))"

text \<open>
  \<open>s.split()\<close> without a separator: the maximal runs of non-whitespace code points,
  in order; no empty string is ever produced.
\<close>

fun words_from :: "pystr \<Rightarrow> pystr \<Rightarrow> pystr list" where
  "words_from cur [] = (if cur = [] then [] else [cur])"
| "words_from cur (x # xs) =
     (if py_isspace x
      then (if cur = [] then words_from [] xs else cur # words_from [] xs)
      else words_from (cur @ [x]) xs)"

definition py_split_ws :: "pystr \<Rightarrow> pystr list" where
  "py_split_ws s = words_from [] s"

text \<open>The decimal digits of a natural number, most significant first.\<close>

fun digits :: "nat \<Rightarrow> pystr" where
  "digits n = (if n < 10 then [48 + n] else digits (n div 10) @ [48 + n mod 10])"

declare digits.simps [simp del]

text \<open>The decimal text of an integer: a minus sign if it is negative, then the digits.\<close>

definition dec :: "int \<Rightarrow> pystr" where
  "dec i = (if i < 0 then 45 # digits (nat (- i)) else digits (nat i))"

text \<open>The number of decimal digits of an integer, the sign not counted.\<close>

definition digit_count :: "int \<Rightarrow> nat" where
  "digit_count i = length (digits (nat \<bar>i\<bar>))"

text \<open>
  The interpreter's limit on the conversion between integers and strings,
  \<open>sys.get_int_max_str_digits()\<close>. Its default is 4300 and the source does not change it.
\<close>

definition int_max_str_digits :: nat where
  "int_max_str_digits = 4300"

text \<open>
  \<open>str(n)\<close> of an integer, which is how an f-string formats \<open>{n}\<close>: the decimal text,
  or \<open>ValueError\<close> when the integer has more digits than the limit.
\<close>

definition str_int :: "int \<Rightarrow> error + pystr" where
  "str_int i =
     (if int_max_str_digits < digit_count i then Inl ValueError else Inr (dec i))"

section \<open>\<open>validate_chapters\<close>\<close>

text \<open>The separator \<open>"Chapter"\<close>.\<close>

definition chapter_token :: pystr where
  "chapter_token = lit ''Chapter''"

text \<open>\<open>[c for c in output.split("Chapter") if c.strip()]\<close>\<close>

definition chapters_of :: "pystr \<Rightarrow> error + pystr list" where
  "chapters_of output =
     (case py_split output chapter_token of
        Inl e \<Rightarrow> Inl e
      | Inr pieces \<Rightarrow> Inr (filter (\<lambda>c. py_strip c \<noteq> []) pieces))"

text \<open>
  The two f-strings of the source. U+274C is 10060. The replacement fields are
  formatted from left to right, and the first conversion that raises ends the call.
\<close>

definition count_message :: "int \<Rightarrow> int \<Rightarrow> int \<Rightarrow> error + pystr" where
  "count_message n min_chapters max_chapters =
     (case str_int n of Inl e \<Rightarrow> Inl e | Inr n' \<Rightarrow>
      case str_int min_chapters of Inl e \<Rightarrow> Inl e | Inr lo \<Rightarrow>
      case str_int max_chapters of Inl e \<Rightarrow> Inl e | Inr hi \<Rightarrow>
        Inr (10060 # lit '' Found '' @ n' @ lit '' chapters. Please rewrite with '' @
             lo @ lit ''-'' @ hi @ lit '' chapters.''))"

definition words_message :: "int \<Rightarrow> int \<Rightarrow> int \<Rightarrow> int \<Rightarrow> error + pystr" where
  "words_message i word_count min_words max_words =
     (case str_int i of Inl e \<Rightarrow> Inl e | Inr i' \<Rightarrow>
      case str_int word_count of Inl e \<Rightarrow> Inl e | Inr wc \<Rightarrow>
      case str_int min_words of Inl e \<Rightarrow> Inl e | Inr lo \<Rightarrow>
      case str_int max_words of Inl e \<Rightarrow> Inl e | Inr hi \<Rightarrow>
        Inr (10060 # lit '' Chapter '' @ i' @ lit '' has '' @ wc @
             lit '' words. Please rewrite with '' @ lo @ lit ''-'' @ hi @ lit '' words.''))"

text \<open>\<open>len(chapter.split())\<close>\<close>

definition word_count :: "pystr \<Rightarrow> int" where
  "word_count chapter = int (length (py_split_ws chapter))"

text \<open>
  The loop \<open>for i, chapter in enumerate(chapters, 1)\<close>: \<open>i\<close> is the index of the head
  of the remaining list. It gives the outcome of the \<open>return\<close> at the first chapter
  that is out of bounds (the message, or the error of formatting it), or \<open>None\<close>
  when the loop runs to its end.
\<close>

fun check_words :: "int \<Rightarrow> pystr list \<Rightarrow> int \<Rightarrow> int \<Rightarrow> (error + pystr) option" where
  "check_words i [] min_words max_words = None"
| "check_words i (chapter # rest) min_words max_words =
     (if word_count chapter < min_words \<or> word_count chapter > max_words
      then Some (words_message i (word_count chapter) min_words max_words)
      else check_words (i + 1) rest min_words max_words)"

definition validate_chapters :: "pystr \<Rightarrow> int \<Rightarrow> int \<Rightarrow> int \<Rightarrow> int \<Rightarrow> error + pystr" where
  "validate_chapters output min_chapters max_chapters min_words max_words =
     (case chapters_of output of
        Inl e \<Rightarrow> Inl e
      | Inr chapters \<Rightarrow>
          if int (length chapters) < min_chapters \<or> int (length chapters) > max_chapters
          then count_message (int (length chapters)) min_chapters max_chapters
          else (case check_words 1 chapters min_words max_words of
                  Some result \<Rightarrow> result
                | None \<Rightarrow> Inr output))"

text \<open>The call with the default arguments of the signature: 8, 10, 300, 400.\<close>

definition validate_chapters_default :: "pystr \<Rightarrow> error + pystr" where
  "validate_chapters_default output = validate_chapters output 8 10 300 400"

section \<open>The message templates as the specification words them\<close>

text \<open>
  Section 4.1 of the specification gives the two rejection messages as
  \<open>"Found {count} chapters. Please rewrite with {minChapters}-{maxChapters} chapters."\<close> and
  \<open>"Chapter {index} has {wordCount} words. Please rewrite with {minWords}-{maxWords} words."\<close>.
  These two definitions follow that wording, for comparison with the f-strings above.
\<close>

definition spec_count_template :: "int \<Rightarrow> int \<Rightarrow> int \<Rightarrow> pystr" where
  "spec_count_template n min_chapters max_chapters =
     lit ''Found '' @ dec n @ lit '' chapters. Please rewrite with '' @
     dec min_chapters @ lit ''-'' @ dec max_chapters @ lit '' chapters.''"

definition spec_words_template :: "int \<Rightarrow> int \<Rightarrow> int \<Rightarrow> int \<Rightarrow> pystr" where
  "spec_words_template i wc min_words max_words =
     lit ''Chapter '' @ dec i @ lit '' has '' @ dec wc @
     lit '' words. Please rewrite with '' @ dec min_words @ lit ''-'' @
     dec max_words @ lit '' words.''"

section \<open>Facts about the built-ins\<close>

text \<open>Unfolding rules that evaluate the model on a concrete text.\<close>

lemmas eval_defs = validate_chapters_default_def validate_chapters_def chapters_of_def
  py_split_def chapter_token_def lit_def py_strip_def py_isspace_def count_message_def
  words_message_def word_count_def py_split_ws_def str_int_def dec_def digit_count_def
  int_max_str_digits_def digits.simps spec_count_template_def spec_words_template_def
  sublist_Cons_right

lemma chapter_token_ne: "chapter_token \<noteq> []"
  by (simp add: chapter_token_def lit_def)

lemma chapter_token_Cons: "chapter_token = 67 # lit ''hapter''"
  by (simp add: chapter_token_def lit_def)

lemma dropWhile_all_iff: "(\<forall>x\<in>set (dropWhile P xs). P x) \<longleftrightarrow> (\<forall>x\<in>set xs. P x)"
  by (induction xs) auto

lemma py_strip_nonempty_iff: "py_strip c \<noteq> [] \<longleftrightarrow> (\<exists>x\<in>set c. \<not> py_isspace x)"
proof -
  have "py_strip c = [] \<longleftrightarrow> (\<forall>x\<in>set (dropWhile py_isspace c). py_isspace x)"
    by (simp add: py_strip_def dropWhile_eq_Nil_conv)
  also have "\<dots> \<longleftrightarrow> (\<forall>x\<in>set c. py_isspace x)"
    by (rule dropWhile_all_iff)
  finally show ?thesis by blast
qed

lemma chapters_of_split:
  "chapters_of output =
     Inr (filter (\<lambda>c. \<exists>x\<in>set c. \<not> py_isspace x) (split_from chapter_token [] output))"
  by (simp add: chapters_of_def py_split_def chapter_token_ne py_strip_nonempty_iff)

lemma split_from_no_occurrence:
  "\<not> sublist sep s \<Longrightarrow> split_from sep cur s = [cur @ s]"
proof (induction s arbitrary: cur)
  case Nil
  then show ?case by simp
next
  case (Cons x xs)
  from Cons.prems have np: "\<not> prefix sep (x # xs)" and ns: "\<not> sublist sep xs"
    by (auto simp: sublist_Cons_right)
  with Cons.IH [OF ns, of "cur @ [x]"] show ?case by simp
qed

lemma split_from_leading:
  assumes "sep \<noteq> []"
  shows "split_from sep [] (sep @ rest) = [] # split_from sep [] rest"
proof -
  from assms obtain y ys where sep: "sep = y # ys" by (cases sep) auto
  then show ?thesis by simp
qed

lemma split_from_piece:
  "y \<notin> set p \<Longrightarrow>
   split_from (y # ys) cur (p @ (y # ys) @ rest) = (cur @ p) # split_from (y # ys) [] rest"
  by (induction p arbitrary: cur) auto

lemma split_from_last_piece:
  "y \<notin> set p \<Longrightarrow> split_from (y # ys) cur p = [cur @ p]"
  by (induction p arbitrary: cur) auto

lemma split_from_replicate:
  "y \<notin> set body \<Longrightarrow>
   split_from (y # ys) [] (body @ concat (replicate n ((y # ys) @ body))) =
     replicate (Suc n) body"
proof (induction n)
  case 0
  then show ?case by (simp add: split_from_last_piece)
next
  case (Suc n)
  have "split_from (y # ys) [] (body @ concat (replicate (Suc n) ((y # ys) @ body))) =
        split_from (y # ys) [] (body @ (y # ys) @ (body @ concat (replicate n ((y # ys) @ body))))"
    by simp
  also have "\<dots> = ([] @ body) # split_from (y # ys) [] (body @ concat (replicate n ((y # ys) @ body)))"
    using Suc.prems by (rule split_from_piece)
  finally show ?case using Suc by simp
qed

lemma words_from_replicate:
  "words_from [97] (concat (replicate n [32, 97])) = replicate (Suc n) [97]"
  by (induction n) (simp_all add: py_isspace_def)

lemma word_count_replicate:
  "word_count (concat (replicate (Suc n) [32, 97])) = int (Suc n)"
  by (simp add: word_count_def py_split_ws_def py_isspace_def words_from_replicate)

lemma chapters_of_replicate:
  assumes "67 \<notin> set body" and "\<exists>x\<in>set body. \<not> py_isspace x"
  shows "chapters_of (concat (replicate (Suc n) (chapter_token @ body))) = Inr (replicate (Suc n) body)"
proof -
  have "split_from chapter_token [] (concat (replicate (Suc n) (chapter_token @ body))) =
        [] # split_from chapter_token [] (body @ concat (replicate n (chapter_token @ body)))"
    using split_from_leading [OF chapter_token_ne] by simp
  also have "\<dots> = [] # replicate (Suc n) body"
    using split_from_replicate [OF assms(1), of "lit ''hapter''" n]
    by (simp add: chapter_token_Cons)
  finally show ?thesis using assms(2) by (simp add: chapters_of_split)
qed

lemma check_words_None_iff:
  "check_words i cs mn mx = None \<longleftrightarrow> (\<forall>c\<in>set cs. mn \<le> word_count c \<and> word_count c \<le> mx)"
  by (induction cs arbitrary: i) auto

lemma check_words_first:
  "(\<forall>c\<in>set pre. mn \<le> word_count c \<and> word_count c \<le> mx) \<Longrightarrow>
   word_count c < mn \<or> word_count c > mx \<Longrightarrow>
   check_words i (pre @ c # post) mn mx = Some (words_message (i + int (length pre)) (word_count c) mn mx)"
  by (induction pre arbitrary: i) (auto simp: algebra_simps)

lemma chapters_of_no_token:
  assumes "\<not> sublist chapter_token output"
  shows "chapters_of output = Inr (if \<forall>x\<in>set output. py_isspace x then [] else [output])"
  using split_from_no_occurrence [OF assms, of "[]"] by (simp add: chapters_of_split)

lemma chapters_of_replicate_pos:
  assumes "67 \<notin> set body" and "\<exists>x\<in>set body. \<not> py_isspace x" and "0 < n"
  shows "chapters_of (concat (replicate n (chapter_token @ body))) = Inr (replicate n body)"
proof -
  from assms(3) obtain m where "n = Suc m" by (cases n) auto
  with chapters_of_replicate [OF assms(1,2), of m] show ?thesis by simp
qed

lemma word_count_replicate_any:
  "word_count (concat (replicate n [32, 97])) = int n"
proof (cases n)
  case 0
  then show ?thesis by (simp add: word_count_def py_split_ws_def)
next
  case (Suc m)
  then show ?thesis using word_count_replicate [of m] by simp
qed

lemma check_words_Some:
  "check_words i cs mn mx = Some m \<Longrightarrow>
   \<exists>k<length cs. m = words_message (i + int k) (word_count (cs ! k)) mn mx"
proof (induction cs arbitrary: i)
  case Nil
  then show ?case by simp
next
  case (Cons c cs)
  show ?case
  proof (cases "word_count c < mn \<or> word_count c > mx")
    case True
    with Cons.prems have "m = words_message i (word_count c) mn mx" by auto
    then show ?thesis by (intro exI [of _ 0]) simp
  next
    case False
    with Cons.prems have "check_words (i + 1) cs mn mx = Some m" by auto
    from Cons.IH [OF this] obtain k where k: "k < length cs"
      "m = words_message (i + 1 + int k) (word_count (cs ! k)) mn mx" by blast
    then show ?thesis by (intro exI [of _ "Suc k"]) (simp add: algebra_simps)
  qed
qed

section \<open>Facts about the conversion of integers\<close>

lemma digits_nonempty: "digits n \<noteq> []"
  by (subst digits.simps) simp

lemma digits_length_le: "n < 10 ^ k \<Longrightarrow> 0 < k \<Longrightarrow> length (digits n) \<le> k"
proof (induction k arbitrary: n)
  case 0
  then show ?case by simp
next
  case (Suc k)
  show ?case
  proof (cases "n < 10")
    case True
    then show ?thesis by (subst digits.simps) simp
  next
    case False
    from Suc.prems(1) have d: "n div 10 < 10 ^ k" by (simp add: less_mult_imp_div_less mult.commute)
    from False Suc.prems(1) have "0 < k" by (cases k) auto
    with d have "length (digits (n div 10)) \<le> k" by (rule Suc.IH)
    with False show ?thesis by (subst digits.simps) simp
  qed
qed

lemma digits_length_gt: "10 ^ k \<le> n \<Longrightarrow> k < length (digits n)"
proof (induction k arbitrary: n)
  case 0
  then show ?case using digits_nonempty [of n] by simp
next
  case (Suc k)
  have "(10::nat) \<le> 10 * 10 ^ k" by simp
  moreover from Suc.prems have "10 * 10 ^ k \<le> n" by simp
  ultimately have ge: "\<not> n < 10" by arith
  from Suc.prems have "10 ^ k \<le> n div 10" by (simp add: less_eq_div_iff_mult_less_eq mult.commute)
  then have "k < length (digits (n div 10))" by (rule Suc.IH)
  with ge show ?case by (subst digits.simps) simp
qed

lemma digits_length_mono:
  assumes "m \<le> n"
  shows "length (digits m) \<le> length (digits n)"
proof -
  have "\<not> 10 ^ length (digits n) \<le> n"
    using digits_length_gt [of "length (digits n)" n] by auto
  with assms have "m < 10 ^ length (digits n)" by simp
  moreover have "0 < length (digits n)" using digits_nonempty [of n] by simp
  ultimately show ?thesis by (rule digits_length_le)
qed

lemma digit_count_le:
  assumes "0 \<le> i" and "i \<le> int n" and "digit_count (int n) \<le> k"
  shows "digit_count i \<le> k"
proof -
  from assms(1,2) have "nat \<bar>i\<bar> \<le> n" by simp
  then have "length (digits (nat \<bar>i\<bar>)) \<le> length (digits n)" by (rule digits_length_mono)
  with assms(3) show ?thesis by (simp add: digit_count_def)
qed

lemma digit_count_power: "k < digit_count (10 ^ k)" "k < digit_count (- (10 ^ k))"
proof -
  have "nat \<bar>(10::int) ^ k\<bar> = 10 ^ k" by (simp add: nat_power_eq)
  then show "k < digit_count (10 ^ k)" "k < digit_count (- (10 ^ k))"
    by (simp_all add: digit_count_def digits_length_gt)
qed

lemma str_int_fits: "digit_count i \<le> int_max_str_digits \<Longrightarrow> str_int i = Inr (dec i)"
  by (simp add: str_int_def)

lemma str_int_too_long:
  "str_int (10 ^ int_max_str_digits) = Inl ValueError"
  "str_int (- (10 ^ int_max_str_digits)) = Inl ValueError"
  using digit_count_power [of int_max_str_digits] by (simp_all add: str_int_def)

lemma str_int_small:
  "str_int 0 = Inr [48]" "str_int 1 = Inr [49]" "str_int 2 = Inr [50]"
  "str_int 8 = Inr [56]" "str_int 10 = Inr [49, 48]"
  by (simp_all add: str_int_def dec_def digit_count_def int_max_str_digits_def digits.simps)

lemma count_message_fits:
  assumes "digit_count n \<le> int_max_str_digits"
    and "digit_count a \<le> int_max_str_digits" and "digit_count b \<le> int_max_str_digits"
  shows "count_message n a b = Inr ([10060, 32] @ spec_count_template n a b)"
  using assms by (simp add: count_message_def spec_count_template_def str_int_fits lit_def)

lemma words_message_fits:
  assumes "digit_count i \<le> int_max_str_digits" and "digit_count w \<le> int_max_str_digits"
    and "digit_count a \<le> int_max_str_digits" and "digit_count b \<le> int_max_str_digits"
  shows "words_message i w a b = Inr ([10060, 32] @ spec_words_template i w a b)"
  using assms by (simp add: words_message_def spec_words_template_def str_int_fits lit_def)

lemma count_message_prefix: "count_message n a b = Inr r \<Longrightarrow> prefix [10060, 32] r"
  by (auto simp: count_message_def lit_def split: sum.splits)

lemma words_message_prefix: "words_message i w a b = Inr r \<Longrightarrow> prefix [10060, 32] r"
  by (auto simp: words_message_def lit_def split: sum.splits)

section \<open>The numbers a message formats are bounded by the length of the text\<close>

lemma split_from_total_length:
  "sum_list (map length (split_from sep cur s)) \<le> length cur + length s"
  by (induction sep cur s rule: split_from.induct) auto

lemma nonblank_count_le: "length (filter (\<lambda>c. \<exists>x\<in>set c. P x) ps) \<le> sum_list (map length ps)"
proof (induction ps)
  case Nil
  then show ?case by simp
next
  case (Cons p ps)
  show ?case
  proof (cases "\<exists>x\<in>set p. P x")
    case True
    then have "1 \<le> length p" by (cases p) auto
    with True Cons show ?thesis by simp
  next
    case False
    with Cons show ?thesis by simp
  qed
qed

lemma chapters_of_length:
  assumes "chapters_of output = Inr chapters"
  shows "length chapters \<le> length output"
proof -
  from assms have "chapters =
      filter (\<lambda>c. \<exists>x\<in>set c. \<not> py_isspace x) (split_from chapter_token [] output)"
    by (simp add: chapters_of_split)
  then have "length chapters \<le> sum_list (map length (split_from chapter_token [] output))"
    by (simp add: nonblank_count_le)
  also have "\<dots> \<le> length output" using split_from_total_length [of chapter_token "[]" "output"] by simp
  finally show ?thesis .
qed

lemma chapters_of_member_length:
  assumes "chapters_of output = Inr chapters" and "c \<in> set chapters"
  shows "length c \<le> length output"
proof -
  from assms have "c \<in> set (split_from chapter_token [] output)"
    by (auto simp: chapters_of_split)
  then have "length c \<le> sum_list (map length (split_from chapter_token [] output))"
    by (intro member_le_sum_list) simp_all
  also have "\<dots> \<le> length output" using split_from_total_length [of chapter_token "[]" "output"] by simp
  finally show ?thesis .
qed

lemma words_from_length: "length (words_from cur s) \<le> length cur + length s"
proof (induction s arbitrary: cur)
  case Nil
  then show ?case by (cases cur) auto
next
  case (Cons x xs)
  show ?case
  proof (cases "py_isspace x")
    case True
    with Cons [of "[]"] show ?thesis by (cases cur) auto
  next
    case False
    with Cons [of "cur @ [x]"] show ?thesis by simp
  qed
qed

lemma word_count_bounds: "0 \<le> word_count c" "word_count c \<le> int (length c)"
  using words_from_length [of "[]" c] by (simp_all add: word_count_def py_split_ws_def)

text \<open>
  For a text whose length has no more digits than the limit, the count, every index
  and every word count are formatted without error.
\<close>

lemma chapter_numbers_fit:
  assumes "chapters_of output = Inr chapters"
    and "digit_count (int (length output)) \<le> int_max_str_digits"
  shows "digit_count (int (length chapters)) \<le> int_max_str_digits"
    and "k < length chapters \<Longrightarrow> digit_count (1 + int k) \<le> int_max_str_digits"
    and "c \<in> set chapters \<Longrightarrow> digit_count (word_count c) \<le> int_max_str_digits"
proof -
  have l: "length chapters \<le> length output" using assms(1) by (rule chapters_of_length)
  then show "digit_count (int (length chapters)) \<le> int_max_str_digits"
    using assms(2) by - (rule digit_count_le [of _ "length output"], simp_all)
  show "digit_count (1 + int k) \<le> int_max_str_digits" if "k < length chapters"
    using that l assms(2) by - (rule digit_count_le [of _ "length output"], simp_all)
  show "digit_count (word_count c) \<le> int_max_str_digits" if "c \<in> set chapters"
  proof -
    have "word_count c \<le> int (length output)"
      using word_count_bounds(2) [of c] chapters_of_member_length [OF assms(1) that] by simp
    with word_count_bounds(1) [of c] assms(2) show ?thesis
      by - (rule digit_count_le [of _ "length output"], simp_all)
  qed
qed

section \<open>Properties of \<open>validate_chapters\<close>\<close>

text \<open>
  C1. If the number of non-blank fragments is within \<open>[min_chapters, max_chapters]\<close> and
  the word count of every fragment is within \<open>[min_words, max_words]\<close>, then
  \<open>validate_chapters\<close> returns the input text unchanged, and validating the returned
  text again gives the same result.
\<close>

theorem validate_chapters_accepts:
  assumes "chapters_of output = Inr chapters"
    and "min_chapters \<le> int (length chapters)" and "int (length chapters) \<le> max_chapters"
    and "\<forall>c\<in>set chapters. min_words \<le> word_count c \<and> word_count c \<le> max_words"
  shows "validate_chapters output min_chapters max_chapters min_words max_words = Inr output \<and>
         (\<forall>r. validate_chapters output min_chapters max_chapters min_words max_words = Inr r \<longrightarrow>
              validate_chapters r min_chapters max_chapters min_words max_words =
              validate_chapters output min_chapters max_chapters min_words max_words)"
proof -
  from assms(4) have "check_words 1 chapters min_words max_words = None"
    by (simp add: check_words_None_iff)
  with assms(1-3)
  have "validate_chapters output min_chapters max_chapters min_words max_words = Inr output"
    by (simp add: validate_chapters_def)
  then show ?thesis by simp
qed

theorem validate_chapters_accepts_witness:
  "validate_chapters (lit ''Chapter a b Chapter c d'') 2 2 2 2 = Inr (lit ''Chapter a b Chapter c d'') \<and>
   chapters_of (lit ''Chapter a b Chapter c d'') = Inr [lit '' a b '', lit '' c d'']"
proof -
  have c: "chapters_of (lit ''Chapter a b Chapter c d'') = Inr [lit '' a b '', lit '' c d'']"
    by (simp add: eval_defs)
  have w: "\<forall>c\<in>set [lit '' a b '', lit '' c d'']. 2 \<le> word_count c \<and> word_count c \<le> 2"
    by (simp add: eval_defs)
  from validate_chapters_accepts [OF c _ _ w, of 2 2] c show ?thesis by simp
qed

text \<open>
  C2, as stated, fails. The claim is that every text without an occurrence of
  \<open>"Chapter"\<close> is rejected with 0 chapters. But \<open>split\<close> returns the whole text as its
  single piece, so a text with a non-whitespace code point counts as one chapter:
  \<open>"hello"\<close> is rejected with 1 chapter.
\<close>

theorem no_chapter_token_counterexample:
  "\<not> sublist chapter_token (lit ''hello'') \<and>
   validate_chapters_default (lit ''hello'') =
     Inr (10060 # lit '' Found 1 chapters. Please rewrite with 8-10 chapters.'') \<and>
   validate_chapters_default (lit ''hello'') \<noteq>
     Inr (10060 # lit '' Found 0 chapters. Please rewrite with 8-10 chapters.'')"
  by (simp add: eval_defs)

text \<open>
  C2, amended. With the default bounds, a text without an occurrence of \<open>"Chapter"\<close>
  is rejected with 0 chapters when it is empty or all whitespace, and with 1 chapter
  otherwise.
\<close>

theorem no_chapter_token_count:
  assumes "\<not> sublist chapter_token output"
  shows "validate_chapters_default output =
           Inr (10060 # lit '' Found '' @
                dec (if \<forall>x\<in>set output. py_isspace x then 0 else 1) @
                lit '' chapters. Please rewrite with 8-10 chapters.'')"
proof -
  have m0: "count_message 0 8 10 =
      Inr (10060 # lit '' Found '' @ dec 0 @ lit '' chapters. Please rewrite with 8-10 chapters.'')"
    by (simp add: eval_defs)
  have m1: "count_message 1 8 10 =
      Inr (10060 # lit '' Found '' @ dec 1 @ lit '' chapters. Please rewrite with 8-10 chapters.'')"
    by (simp add: eval_defs)
  show ?thesis
    using chapters_of_no_token [OF assms] m0 m1
    by (simp add: validate_chapters_default_def validate_chapters_def)
qed

theorem no_chapter_token_count_witness:
  "\<not> sublist chapter_token (lit '' '') \<and>
   validate_chapters_default (lit '' '') =
     Inr (10060 # lit '' Found 0 chapters. Please rewrite with 8-10 chapters.'')"
proof -
  have h: "\<not> sublist chapter_token (lit '' '')" by (simp add: eval_defs)
  from no_chapter_token_count [OF h] h show ?thesis by (simp add: eval_defs)
qed

text \<open>
  C3, as stated, fails twice. The claim is that a chapter count out of bounds returns
  exactly the template \<open>"Found {count} chapters. ..."\<close>, for every text and bounds.
  Both f-strings of the source start with U+274C and a space: at the empty text the
  count is 0, below 8, and the result is neither the template nor the input. And a
  bound of more than 4300 digits cannot be formatted: with \<open>max_chapters = 10 ^ 4300\<close>
  the count of \<open>"hello"\<close>, 1, is below 8 and the call raises \<open>ValueError\<close>.
\<close>

theorem count_rejection_literal_counterexample:
  "chapters_of [] = Inr [] \<and> int (length ([] :: pystr list)) < 8 \<and>
   validate_chapters [] 8 10 300 400 \<noteq> Inr (spec_count_template 0 8 10) \<and>
   validate_chapters [] 8 10 300 400 \<noteq> Inr [] \<and>
   chapters_of (lit ''hello'') = Inr [lit ''hello''] \<and>
   validate_chapters (lit ''hello'') 8 (10 ^ 4300) 300 400 = Inl ValueError"
proof -
  have a: "chapters_of [] = Inr [] \<and> int (length ([] :: pystr list)) < 8 \<and>
      validate_chapters [] 8 10 300 400 \<noteq> Inr (spec_count_template 0 8 10) \<and>
      validate_chapters [] 8 10 300 400 \<noteq> Inr []"
    by (simp add: eval_defs)
  have c: "chapters_of (lit ''hello'') = Inr [lit ''hello'']" by (simp add: eval_defs)
  have e: "str_int (10 ^ 4300) = Inl ValueError"
    using str_int_too_long(1) unfolding int_max_str_digits_def .
  have g: "validate_chapters (lit ''hello'') 8 b 300 400 = Inl ValueError"
    if "str_int b = Inl ValueError" for b
    using that by (simp add: validate_chapters_def c count_message_def str_int_small)
  from a c g [OF e] show ?thesis by blast
qed

text \<open>
  C3, amended. For a text whose length has at most 4300 decimal digits (every string
  a Python process can hold) and bounds of at most 4300 decimal digits: when the
  chapter count is out of bounds the result is U+274C, a space and the count template
  with the placeholders substituted. Every result is the input text, or U+274C, a
  space and the count template, or U+274C, a space and the word template for the
  1-based index and the word count of one of the chapters.
\<close>

theorem validate_chapters_output_shape:
  assumes "chapters_of output = Inr chapters"
    and "digit_count (int (length output)) \<le> int_max_str_digits"
    and "digit_count min_chapters \<le> int_max_str_digits"
    and "digit_count max_chapters \<le> int_max_str_digits"
    and "digit_count min_words \<le> int_max_str_digits"
    and "digit_count max_words \<le> int_max_str_digits"
  shows "(int (length chapters) < min_chapters \<or> int (length chapters) > max_chapters \<longrightarrow>
            validate_chapters output min_chapters max_chapters min_words max_words =
              Inr ([10060, 32] @
                   spec_count_template (int (length chapters)) min_chapters max_chapters)) \<and>
         (validate_chapters output min_chapters max_chapters min_words max_words = Inr output \<or>
          validate_chapters output min_chapters max_chapters min_words max_words =
            Inr ([10060, 32] @
                 spec_count_template (int (length chapters)) min_chapters max_chapters) \<or>
          (\<exists>k<length chapters.
             validate_chapters output min_chapters max_chapters min_words max_words =
               Inr ([10060, 32] @
                    spec_words_template (int k + 1) (word_count (chapters ! k))
                      min_words max_words)))"
proof (cases "int (length chapters) < min_chapters \<or> int (length chapters) > max_chapters")
  case True
  have "count_message (int (length chapters)) min_chapters max_chapters =
      Inr ([10060, 32] @ spec_count_template (int (length chapters)) min_chapters max_chapters)"
    using chapter_numbers_fit(1) [OF assms(1,2)] assms(3,4) by (rule count_message_fits)
  with True assms(1) show ?thesis by (simp add: validate_chapters_def)
next
  case False
  show ?thesis
  proof (cases "check_words 1 chapters min_words max_words")
    case None
    with False assms(1) show ?thesis by (simp add: validate_chapters_def)
  next
    case (Some m)
    from check_words_Some [OF Some] obtain k where k: "k < length chapters"
      "m = words_message (1 + int k) (word_count (chapters ! k)) min_words max_words"
      by blast
    from k(1) have "chapters ! k \<in> set chapters" by simp
    then have "words_message (1 + int k) (word_count (chapters ! k)) min_words max_words =
        Inr ([10060, 32] @
             spec_words_template (1 + int k) (word_count (chapters ! k)) min_words max_words)"
      using chapter_numbers_fit(2,3) [OF assms(1,2)] k(1) assms(5,6)
      by (intro words_message_fits) auto
    moreover
    have "validate_chapters output min_chapters max_chapters min_words max_words = m"
      using False assms(1) Some by (simp add: validate_chapters_def)
    ultimately have "\<exists>k<length chapters.
        validate_chapters output min_chapters max_chapters min_words max_words =
          Inr ([10060, 32] @
               spec_words_template (int k + 1) (word_count (chapters ! k)) min_words max_words)"
      using k by (auto simp: add.commute)
    with False show ?thesis by blast
  qed
qed

theorem validate_chapters_output_shape_witness:
  "chapters_of [] = Inr [] \<and>
   validate_chapters [] 8 10 300 400 =
     Inr (10060 # 32 # lit ''Found 0 chapters. Please rewrite with 8-10 chapters.'')"
proof -
  have c: "chapters_of [] = Inr []" by (simp add: eval_defs)
  have f: "digit_count (int (length ([] :: pystr))) \<le> int_max_str_digits"
    "digit_count 8 \<le> int_max_str_digits" "digit_count 10 \<le> int_max_str_digits"
    "digit_count 300 \<le> int_max_str_digits" "digit_count 400 \<le> int_max_str_digits"
    by (simp_all add: eval_defs)
  from validate_chapters_output_shape [OF c f] c
  show ?thesis by (simp add: eval_defs)
qed

text \<open>
  C4, as stated, fails. The claim is that the first chapter whose word count is out
  of bounds is the one reported. In \<open>"Chapter a"\<close> with the chapter bounds 1 and 1 the
  count passes and chapter 1 has 1 word, below \<open>min_words = 2\<close>; with
  \<open>max_words = - (10 ^ 4300)\<close> the message cannot be formatted and the call raises
  \<open>ValueError\<close>: no violation is reported.
\<close>

theorem check_order_counterexample:
  "chapters_of (lit ''Chapter a'') = Inr [lit '' a''] \<and>
   word_count (lit '' a'') = 1 \<and>
   validate_chapters (lit ''Chapter a'') 1 1 2 (- (10 ^ 4300)) = Inl ValueError"
proof -
  have c: "chapters_of (lit ''Chapter a'') = Inr [lit '' a'']" by (simp add: eval_defs)
  have w: "word_count (lit '' a'') = 1" by (simp add: eval_defs)
  have e: "str_int (- (10 ^ 4300)) = Inl ValueError"
    using str_int_too_long(2) unfolding int_max_str_digits_def .
  have g: "validate_chapters (lit ''Chapter a'') 1 1 2 b = Inl ValueError"
    if "str_int b = Inl ValueError" for b
    using that by (simp add: validate_chapters_def c w words_message_def str_int_small)
  from c w g [OF e] show ?thesis by blast
qed

text \<open>
  C4, amended. For a text whose length has at most 4300 decimal digits (every string
  a Python process can hold) and bounds of at most 4300 decimal digits, the checks
  run in a fixed order and stop at the first violation. If the chapter count is out
  of bounds the result is the count message, whatever the word counts are. Otherwise,
  if the chapters are \<open>pre @ c # post\<close>, every chapter in \<open>pre\<close> is within the word
  bounds and \<open>c\<close> is not, the result is the word message for index \<open>length pre + 1\<close>
  and the word count of \<open>c\<close>: it does not depend on \<open>post\<close>.
\<close>

theorem validate_chapters_check_order:
  assumes "chapters_of output = Inr chapters"
    and "digit_count (int (length output)) \<le> int_max_str_digits"
    and "digit_count min_chapters \<le> int_max_str_digits"
    and "digit_count max_chapters \<le> int_max_str_digits"
    and "digit_count min_words \<le> int_max_str_digits"
    and "digit_count max_words \<le> int_max_str_digits"
  shows "(int (length chapters) < min_chapters \<or> int (length chapters) > max_chapters \<longrightarrow>
            validate_chapters output min_chapters max_chapters min_words max_words =
              Inr ([10060, 32] @
                   spec_count_template (int (length chapters)) min_chapters max_chapters)) \<and>
         (min_chapters \<le> int (length chapters) \<and> int (length chapters) \<le> max_chapters \<and>
          chapters = pre @ c # post \<and>
          (\<forall>p\<in>set pre. min_words \<le> word_count p \<and> word_count p \<le> max_words) \<and>
          (word_count c < min_words \<or> word_count c > max_words) \<longrightarrow>
            validate_chapters output min_chapters max_chapters min_words max_words =
              Inr ([10060, 32] @
                   spec_words_template (int (length pre) + 1) (word_count c)
                     min_words max_words))"
proof (intro conjI impI)
  assume bad: "int (length chapters) < min_chapters \<or> int (length chapters) > max_chapters"
  have "count_message (int (length chapters)) min_chapters max_chapters =
      Inr ([10060, 32] @ spec_count_template (int (length chapters)) min_chapters max_chapters)"
    using chapter_numbers_fit(1) [OF assms(1,2)] assms(3,4) by (rule count_message_fits)
  with bad assms(1)
  show "validate_chapters output min_chapters max_chapters min_words max_words =
          Inr ([10060, 32] @
               spec_count_template (int (length chapters)) min_chapters max_chapters)"
    by (simp add: validate_chapters_def)
next
  assume h: "min_chapters \<le> int (length chapters) \<and> int (length chapters) \<le> max_chapters \<and>
          chapters = pre @ c # post \<and>
          (\<forall>p\<in>set pre. min_words \<le> word_count p \<and> word_count p \<le> max_words) \<and>
          (word_count c < min_words \<or> word_count c > max_words)"
  then have first: "check_words 1 chapters min_words max_words =
      Some (words_message (1 + int (length pre)) (word_count c) min_words max_words)"
    using check_words_first [of pre min_words max_words c 1 post] by blast
  from h have ok: "\<not> (int (length chapters) < min_chapters \<or> int (length chapters) > max_chapters)"
    by linarith
  from h have "length pre < length chapters" and "c \<in> set chapters" by simp_all
  then have "words_message (1 + int (length pre)) (word_count c) min_words max_words =
      Inr ([10060, 32] @
           spec_words_template (1 + int (length pre)) (word_count c) min_words max_words)"
    using chapter_numbers_fit(2,3) [OF assms(1,2)] assms(5,6)
    by (intro words_message_fits) auto
  with first ok assms(1)
  show "validate_chapters output min_chapters max_chapters min_words max_words =
          Inr ([10060, 32] @
               spec_words_template (int (length pre) + 1) (word_count c) min_words max_words)"
    by (simp add: validate_chapters_def add.commute)
qed

theorem validate_chapters_check_order_witness:
  "validate_chapters (lit ''Chapter a Chapter b'') 3 4 5 6 =
     Inr (10060 # lit '' Found 2 chapters. Please rewrite with 3-4 chapters.'') \<and>
   validate_chapters (lit ''Chapter a b Chapter c Chapter d'') 2 3 2 3 =
     Inr (10060 # lit '' Chapter 2 has 1 words. Please rewrite with 2-3 words.'')"
proof -
  have c1: "chapters_of (lit ''Chapter a Chapter b'') = Inr [lit '' a '', lit '' b'']"
    by (simp add: eval_defs)
  have c2: "chapters_of (lit ''Chapter a b Chapter c Chapter d'') =
      Inr [lit '' a b '', lit '' c '', lit '' d'']"
    by (simp add: eval_defs)
  have w1: "word_count (lit '' a b '') = 2" by (simp add: eval_defs)
  have w2: "word_count (lit '' c '') = 1" by (simp add: eval_defs)
  have f1: "digit_count (int (length (lit ''Chapter a Chapter b''))) \<le> int_max_str_digits"
    "digit_count 3 \<le> int_max_str_digits" "digit_count 4 \<le> int_max_str_digits"
    "digit_count 5 \<le> int_max_str_digits" "digit_count 6 \<le> int_max_str_digits"
    by (simp_all add: eval_defs)
  have f2: "digit_count (int (length (lit ''Chapter a b Chapter c Chapter d''))) \<le>
      int_max_str_digits"
    "digit_count 2 \<le> int_max_str_digits" "digit_count 3 \<le> int_max_str_digits"
    "digit_count 2 \<le> int_max_str_digits" "digit_count 3 \<le> int_max_str_digits"
    by (simp_all add: eval_defs)
  have a: "validate_chapters (lit ''Chapter a Chapter b'') 3 4 5 6 =
      Inr ([10060, 32] @ spec_count_template 2 3 4)"
    using validate_chapters_check_order [OF c1 f1] by simp
  have b: "validate_chapters (lit ''Chapter a b Chapter c Chapter d'') 2 3 2 3 =
      Inr ([10060, 32] @ spec_words_template 2 1 2 3)"
    using validate_chapters_check_order
      [OF c2 f2, where pre = "[lit '' a b '']" and c = "lit '' c ''" and post = "[lit '' d'']"]
      w1 w2
    by simp
  from a b show ?thesis by (simp add: eval_defs)
qed

text \<open>
  C5. With the default arguments 8, 10, 300 and 400, a text with exactly 8 or exactly
  10 chapters, each of 300 to 400 words inclusive, is returned unchanged. The second
  theorem applies it to 8 chapters of 300 words and to 10 chapters of 400 words.
\<close>

theorem validate_chapters_default_boundaries:
  assumes "chapters_of output = Inr chapters"
    and "length chapters = 8 \<or> length chapters = 10"
    and "\<forall>c\<in>set chapters. 300 \<le> word_count c \<and> word_count c \<le> 400"
  shows "validate_chapters_default output = Inr output \<and>
         validate_chapters_default output = validate_chapters output 8 10 300 400"
proof -
  from assms(3) have "check_words 1 chapters 300 400 = None"
    by (simp add: check_words_None_iff)
  moreover from assms(2)
  have "\<not> (int (length chapters) < 8 \<or> int (length chapters) > 10)" by auto
  ultimately show ?thesis
    using assms(1) by (simp add: validate_chapters_default_def validate_chapters_def)
qed

theorem validate_chapters_default_boundaries_witness:
  "validate_chapters_default
     (concat (replicate 8 (chapter_token @ concat (replicate 300 [32, 97])))) =
     Inr (concat (replicate 8 (chapter_token @ concat (replicate 300 [32, 97])))) \<and>
   validate_chapters_default
     (concat (replicate 10 (chapter_token @ concat (replicate 400 [32, 97])))) =
     Inr (concat (replicate 10 (chapter_token @ concat (replicate 400 [32, 97]))))"
proof -
  have c8: "chapters_of (concat (replicate 8 (chapter_token @ concat (replicate 300 [32, 97]))))
      = Inr (replicate 8 (concat (replicate 300 [32, 97])))"
    by (rule chapters_of_replicate_pos) (simp_all add: py_isspace_def)
  have c10: "chapters_of (concat (replicate 10 (chapter_token @ concat (replicate 400 [32, 97]))))
      = Inr (replicate 10 (concat (replicate 400 [32, 97])))"
    by (rule chapters_of_replicate_pos) (simp_all add: py_isspace_def)
  have w8: "\<forall>c\<in>set (replicate 8 (concat (replicate 300 [32, 97]))).
      300 \<le> word_count c \<and> word_count c \<le> 400"
    by (simp add: word_count_replicate_any)
  have w10: "\<forall>c\<in>set (replicate 10 (concat (replicate 400 [32, 97]))).
      300 \<le> word_count c \<and> word_count c \<le> 400"
    by (simp add: word_count_replicate_any)
  have l8: "length (replicate 8 (concat (replicate 300 [32, 97::nat]))) = 8 \<or>
      length (replicate 8 (concat (replicate 300 [32, 97::nat]))) = 10" by simp
  have l10: "length (replicate 10 (concat (replicate 400 [32, 97::nat]))) = 8 \<or>
      length (replicate 10 (concat (replicate 400 [32, 97::nat]))) = 10" by simp
  from validate_chapters_default_boundaries [OF c8 l8 w8]
    validate_chapters_default_boundaries [OF c10 l10 w10]
  show ?thesis by blast
qed

text \<open>
  C6. The chapter list is the list of pieces of \<open>split\<close> without the pieces that are
  empty or all whitespace: no such piece is a chapter, the chapter count is the
  number of pieces minus the number of such pieces, and a \<open>"Chapter"\<close> put in front of
  the text adds no chapter.
\<close>

theorem blank_fragments_excluded:
  assumes "py_split output chapter_token = Inr pieces"
    and "chapters_of output = Inr chapters"
  shows "chapters = filter (\<lambda>p. \<exists>x\<in>set p. \<not> py_isspace x) pieces \<and>
         (\<forall>p\<in>set pieces. (\<forall>x\<in>set p. py_isspace x) \<longrightarrow> p \<notin> set chapters) \<and>
         length chapters + length (filter (\<lambda>p. \<forall>x\<in>set p. py_isspace x) pieces) = length pieces \<and>
         chapters_of (chapter_token @ output) = Inr chapters"
proof -
  from assms have c: "chapters = filter (\<lambda>p. \<exists>x\<in>set p. \<not> py_isspace x) pieces"
    by (simp add: chapters_of_def py_strip_nonempty_iff)
  have "length (filter (\<lambda>p. \<not> (\<forall>x\<in>set p. py_isspace x)) pieces) +
        length (filter (\<lambda>p. \<forall>x\<in>set p. py_isspace x) pieces) = length pieces"
    using sum_length_filter_compl [of "\<lambda>p. \<forall>x\<in>set p. py_isspace x" pieces] by simp
  then have l: "length chapters + length (filter (\<lambda>p. \<forall>x\<in>set p. py_isspace x) pieces) =
      length pieces"
    by (simp add: c)
  have "chapters_of (chapter_token @ output) = chapters_of output"
    using split_from_leading [OF chapter_token_ne, of "output"] by (simp add: chapters_of_split)
  with assms(2) have t: "chapters_of (chapter_token @ output) = Inr chapters" by simp
  from c l t show ?thesis by auto
qed

theorem blank_fragments_excluded_witness:
  "py_split (lit ''Chapter  Chapter a'') chapter_token = Inr [[], lit ''  '', lit '' a''] \<and>
   chapters_of (lit ''Chapter  Chapter a'') = Inr [lit '' a''] \<and>
   chapters_of (chapter_token @ lit ''Chapter  Chapter a'') = Inr [lit '' a'']"
proof -
  have s: "py_split (lit ''Chapter  Chapter a'') chapter_token = Inr [[], lit ''  '', lit '' a'']"
    by (simp add: eval_defs)
  have c: "chapters_of (lit ''Chapter  Chapter a'') = Inr [lit '' a'']"
    by (simp add: eval_defs)
  from blank_fragments_excluded [OF s c] s c show ?thesis by simp
qed




text \<open>
  C9. Both rejection messages begin with U+274C and a space: whenever the chapter
  count is out of bounds or some chapter's word count is, the result has this prefix;
  and a result without the prefix is the input text.
\<close>

theorem rejection_prefix:
  assumes "chapters_of output = Inr chapters"
    and "validate_chapters output min_chapters max_chapters min_words max_words = Inr r"
  shows "(int (length chapters) < min_chapters \<or> int (length chapters) > max_chapters \<or>
          (\<exists>c\<in>set chapters. word_count c < min_words \<or> word_count c > max_words) \<longrightarrow>
            prefix [10060, 32] r) \<and>
         (\<not> prefix [10060, 32] r \<longrightarrow> r = output)"
proof (cases "int (length chapters) < min_chapters \<or> int (length chapters) > max_chapters")
  case True
  with assms have "count_message (int (length chapters)) min_chapters max_chapters = Inr r"
    by (simp add: validate_chapters_def)
  then have "prefix [10060, 32] r" by (rule count_message_prefix)
  then show ?thesis by simp
next
  case False
  show ?thesis
  proof (cases "check_words 1 chapters min_words max_words")
    case None
    then have "\<forall>c\<in>set chapters. min_words \<le> word_count c \<and> word_count c \<le> max_words"
      by (simp add: check_words_None_iff)
    moreover from None False assms have "r = output" by (simp add: validate_chapters_def)
    ultimately show ?thesis using False by fastforce
  next
    case (Some m)
    from check_words_Some [OF Some] obtain k where
      "m = words_message (1 + int k) (word_count (chapters ! k)) min_words max_words" by blast
    moreover from Some False assms have "m = Inr r" by (simp add: validate_chapters_def)
    ultimately have "prefix [10060, 32] r" using words_message_prefix by metis
    then show ?thesis by simp
  qed
qed

theorem rejection_prefix_witness:
  "prefix [10060, 32] (10060 # lit '' Found 1 chapters. Please rewrite with 8-10 chapters.'') \<and>
   validate_chapters (lit ''hello'') 8 10 300 400 =
     Inr (10060 # lit '' Found 1 chapters. Please rewrite with 8-10 chapters.'') \<and>
   validate_chapters (lit ''Chapter a b Chapter c Chapter d'') 2 3 2 3 =
     Inr (10060 # lit '' Chapter 2 has 1 words. Please rewrite with 2-3 words.'') \<and>
   prefix [10060, 32] (10060 # lit '' Chapter 2 has 1 words. Please rewrite with 2-3 words.'')"
proof -
  have c1: "chapters_of (lit ''hello'') = Inr [lit ''hello'']" by (simp add: eval_defs)
  have v1: "validate_chapters (lit ''hello'') 8 10 300 400 =
      Inr (10060 # lit '' Found 1 chapters. Please rewrite with 8-10 chapters.'')"
    by (simp add: eval_defs)
  have c2: "chapters_of (lit ''Chapter a b Chapter c Chapter d'') =
      Inr [lit '' a b '', lit '' c '', lit '' d'']"
    by (simp add: eval_defs)
  have v2: "validate_chapters (lit ''Chapter a b Chapter c Chapter d'') 2 3 2 3 =
      Inr (10060 # lit '' Chapter 2 has 1 words. Please rewrite with 2-3 words.'')"
    by (simp add: eval_defs)
  have w2: "word_count (lit '' c '') = 1" by (simp add: eval_defs)
  from rejection_prefix [OF c1 v1] rejection_prefix [OF c2 v2] w2 v1 v2
  show ?thesis by simp
qed

text \<open>
  C10. A text without an occurrence of \<open>"Chapter"\<close> and with at least one
  non-whitespace code point is split into exactly one piece, itself; it is the only
  chapter, and with the default bounds the result is the rejection with 1 chapter.
\<close>

theorem no_token_single_fragment:
  assumes "\<not> sublist chapter_token output" and "\<exists>x\<in>set output. \<not> py_isspace x"
  shows "py_split output chapter_token = Inr [output] \<and>
         chapters_of output = Inr [output] \<and>
         validate_chapters_default output =
           Inr (10060 # lit '' Found 1 chapters. Please rewrite with 8-10 chapters.'')"
proof -
  have s: "py_split output chapter_token = Inr [output]"
    using split_from_no_occurrence [OF assms(1), of "[]"]
    by (simp add: py_split_def chapter_token_ne)
  have c: "chapters_of output = Inr [output]"
    using chapters_of_no_token [OF assms(1)] assms(2) by auto
  have "validate_chapters_default output = count_message 1 8 10"
    using c by (simp add: validate_chapters_default_def validate_chapters_def)
  moreover have "count_message 1 8 10 =
      Inr (10060 # lit '' Found 1 chapters. Please rewrite with 8-10 chapters.'')"
    by (simp add: eval_defs)
  ultimately show ?thesis using s c by simp
qed

theorem no_token_single_fragment_witness:
  "chapters_of (lit ''Once upon a time'') = Inr [lit ''Once upon a time''] \<and>
   validate_chapters_default (lit ''Once upon a time'') =
     Inr (10060 # lit '' Found 1 chapters. Please rewrite with 8-10 chapters.'')"
proof -
  have h: "\<not> sublist chapter_token (lit ''Once upon a time'')" by (simp add: eval_defs)
  have n: "\<exists>x\<in>set (lit ''Once upon a time''). \<not> py_isspace x" by (simp add: eval_defs)
  from no_token_single_fragment [OF h n] show ?thesis by simp
qed

end
